theory Spec2Isabelle
  imports Main "HOL-Library.Word" "HOL-Library.Multiset"
begin

unbundle bit_operations_syntax

section \<open>Mutex-protected atomic variables (ldvc\_atomic.hpp)\<close>

text \<open>
  Every function of the header takes a \<^verbatim>\<open>std::atomic<T>& var\<close> and a
  \<^verbatim>\<open>std::mutex& mutex\<close>. The pair is one record: the value held by the atomic
  and whether the mutex is owned at the moment.
\<close>

record 'a guard =
  var :: 'a
  mutex_locked :: bool

text \<open>
  \<^verbatim>\<open>std::lock_guard<std::mutex> lock(mutex);\<close> as the first statement of a function
  body: the constructor acquires the mutex, the body runs, the destructor releases the
  mutex when the function returns. In a serialized history the calling thread is the only
  one that runs, so a call that finds the mutex owned never returns: that is the result
  \<open>None\<close>.
\<close>

definition lock_guard :: "('a guard \<Rightarrow> 'r \<times> 'a guard) \<Rightarrow> 'a guard \<Rightarrow> ('r \<times> 'a guard) option" where
  "lock_guard body g =
     (if mutex_locked g then None
      else (case body (g\<lparr>mutex_locked := True\<rparr>) of
              (r, g') \<Rightarrow> Some (r, g'\<lparr>mutex_locked := False\<rparr>)))"

text \<open>\<^verbatim>\<open>var.store(value, std::memory_order_relaxed);\<close>\<close>

definition ldvc_atomic_create :: "'a guard \<Rightarrow> 'a \<Rightarrow> (unit \<times> 'a guard) option" where
  "ldvc_atomic_create g val = lock_guard (\<lambda>s. ((), s\<lparr>var := val\<rparr>)) g"

text \<open>\<^verbatim>\<open>var.store(T{}, std::memory_order_relaxed);\<close> The value-initialised \<^verbatim>\<open>T{}\<close>
  of an arithmetic type is its zero.\<close>

definition ldvc_atomic_delete :: "('a::zero) guard \<Rightarrow> (unit \<times> 'a guard) option" where
  "ldvc_atomic_delete g = lock_guard (\<lambda>s. ((), s\<lparr>var := 0\<rparr>)) g"

text \<open>\<^verbatim>\<open>var.fetch_add(arg, ...)\<close> and its siblings return the previous value, which the
  functions drop. On the integral specialisations of \<^verbatim>\<open>std::atomic\<close> the arithmetic
  is two's complement and wraps, for signed types too: a machine word.\<close>

definition ldvc_atomic_inc :: "('a::len) word guard \<Rightarrow> 'a word \<Rightarrow> (unit \<times> 'a word guard) option" where
  "ldvc_atomic_inc g arg = lock_guard (\<lambda>s. ((), s\<lparr>var := var s + arg\<rparr>)) g"

definition ldvc_atomic_dec :: "('a::len) word guard \<Rightarrow> 'a word \<Rightarrow> (unit \<times> 'a word guard) option" where
  "ldvc_atomic_dec g arg = lock_guard (\<lambda>s. ((), s\<lparr>var := var s - arg\<rparr>)) g"

definition ldvc_atomic_and :: "('a::len) word guard \<Rightarrow> 'a word \<Rightarrow> (unit \<times> 'a word guard) option" where
  "ldvc_atomic_and g arg = lock_guard (\<lambda>s. ((), s\<lparr>var := var s AND arg\<rparr>)) g"

definition ldvc_atomic_or :: "('a::len) word guard \<Rightarrow> 'a word \<Rightarrow> (unit \<times> 'a word guard) option" where
  "ldvc_atomic_or g arg = lock_guard (\<lambda>s. ((), s\<lparr>var := var s OR arg\<rparr>)) g"

definition ldvc_atomic_xor :: "('a::len) word guard \<Rightarrow> 'a word \<Rightarrow> (unit \<times> 'a word guard) option" where
  "ldvc_atomic_xor g arg = lock_guard (\<lambda>s. ((), s\<lparr>var := var s XOR arg\<rparr>)) g"

text \<open>\<^verbatim>\<open>return var.exchange(new_value, ...);\<close>\<close>

definition ldvc_atomic_exchange :: "'a guard \<Rightarrow> 'a \<Rightarrow> ('a \<times> 'a guard) option" where
  "ldvc_atomic_exchange g new_value = lock_guard (\<lambda>s. (var s, s\<lparr>var := new_value\<rparr>)) g"

text \<open>\<^verbatim>\<open>return var.load(...);\<close>\<close>

definition ldvc_atomic_load :: "'a guard \<Rightarrow> ('a \<times> 'a guard) option" where
  "ldvc_atomic_load g = lock_guard (\<lambda>s. (var s, s)) g"

text \<open>\<^verbatim>\<open>var.store(new_value, ...);\<close>\<close>

definition ldvc_atomic_store :: "'a guard \<Rightarrow> 'a \<Rightarrow> (unit \<times> 'a guard) option" where
  "ldvc_atomic_store g new_value = lock_guard (\<lambda>s. ((), s\<lparr>var := new_value\<rparr>)) g"

subsection \<open>Serialized histories\<close>

text \<open>
  One call of one of the ten functions on an integral guard. A history is a list of calls
  in the order in which they acquired the mutex. A call returns either nothing
  (\<open>None\<close>) or a value of the guarded type.
\<close>

datatype 'a op =
    Create 'a | Delete | Inc 'a | Dec 'a | And 'a | Or 'a | Xor 'a
  | Exchange 'a | Load | Store 'a

definition returns_void :: "(unit \<times> 'g) option \<Rightarrow> ('b option \<times> 'g) option" where
  "returns_void r = map_option (\<lambda>(u, g). (None, g)) r"

definition returns_value :: "('b \<times> 'g) option \<Rightarrow> ('b option \<times> 'g) option" where
  "returns_value r = map_option (\<lambda>(v, g). (Some v, g)) r"

fun call :: "('a::len) word guard \<Rightarrow> 'a word op \<Rightarrow> ('a word option \<times> 'a word guard) option" where
  "call g (Create v) = returns_void (ldvc_atomic_create g v)"
| "call g Delete = returns_void (ldvc_atomic_delete g)"
| "call g (Inc d) = returns_void (ldvc_atomic_inc g d)"
| "call g (Dec d) = returns_void (ldvc_atomic_dec g d)"
| "call g (And m) = returns_void (ldvc_atomic_and g m)"
| "call g (Or m) = returns_void (ldvc_atomic_or g m)"
| "call g (Xor m) = returns_void (ldvc_atomic_xor g m)"
| "call g (Exchange v) = returns_value (ldvc_atomic_exchange g v)"
| "call g Load = returns_value (ldvc_atomic_load g)"
| "call g (Store v) = returns_void (ldvc_atomic_store g v)"

text \<open>The calls of a history one after the other: the values they returned and the
  guard they leave. A call that does not return ends the history.\<close>

fun run_history :: "('a::len) word guard \<Rightarrow> 'a word op list
    \<Rightarrow> ('a word option list \<times> 'a word guard) option" where
  "run_history g [] = Some ([], g)"
| "run_history g (c # cs) =
     (case call g c of
        None \<Rightarrow> None
      | Some (r, g') \<Rightarrow>
          (case run_history g' cs of
             None \<Rightarrow> None
           | Some (rs, g'') \<Rightarrow> Some (r # rs, g'')))"

text \<open>The value a history leaves in the guard.\<close>

definition final_value :: "('a::len) word guard \<Rightarrow> 'a word op list \<Rightarrow> 'a word option" where
  "final_value g cs = map_option (\<lambda>(rs, g'). var g') (run_history g cs)"

subsection \<open>Vocabulary for the properties of histories\<close>

text \<open>
  What one call does to the guarded value, as a function of the value before the call.
  Lemma \<open>call_effect\<close> below proves that \<open>call\<close> computes exactly this.
\<close>

fun effect :: "('a::len) word op \<Rightarrow> 'a word \<Rightarrow> 'a word" where
  "effect (Create v) x = v"
| "effect Delete x = 0"
| "effect (Inc d) x = x + d"
| "effect (Dec d) x = x - d"
| "effect (And m) x = x AND m"
| "effect (Or m) x = x OR m"
| "effect (Xor m) x = x XOR m"
| "effect (Exchange v) x = v"
| "effect Load x = x"
| "effect (Store v) x = v"

text \<open>The value a call sets outright, for create, store and exchange.\<close>

fun set_value :: "'a op \<Rightarrow> 'a option" where
  "set_value (Create v) = Some v"
| "set_value (Store v) = Some v"
| "set_value (Exchange v) = Some v"
| "set_value _ = None"

text \<open>
  The specification's "value set by the most recent prior store/exchange/create" of a
  history, written from its words: the argument of the last create, store or exchange.
\<close>

fun spec_most_recent_set :: "'a op list \<Rightarrow> 'a option" where
  "spec_most_recent_set [] = None"
| "spec_most_recent_set (c # cs) =
     (case spec_most_recent_set cs of Some v \<Rightarrow> Some v | None \<Rightarrow> set_value c)"

text \<open>An exchange that is serialized right after a history.\<close>

definition exchange_after :: "('a::len) word guard \<Rightarrow> 'a word op list \<Rightarrow> 'a word
    \<Rightarrow> ('a word \<times> 'a word guard) option" where
  "exchange_after g h v =
     (case run_history g h of None \<Rightarrow> None | Some (rs, g') \<Rightarrow> ldvc_atomic_exchange g' v)"

text \<open>The signed delta of an increment or a decrement: the argument read as a two's
  complement number, negated for a decrement.\<close>

fun signed_delta :: "('a::len) word op \<Rightarrow> int" where
  "signed_delta (Inc d) = sint d"
| "signed_delta (Dec d) = - sint d"
| "signed_delta _ = 0"

fun is_inc_dec :: "'a op \<Rightarrow> bool" where
  "is_inc_dec (Inc d) = True"
| "is_inc_dec (Dec d) = True"
| "is_inc_dec _ = False"

fun is_and :: "'a op \<Rightarrow> bool" where
  "is_and (And m) = True"
| "is_and _ = False"

fun is_or :: "'a op \<Rightarrow> bool" where
  "is_or (Or m) = True"
| "is_or _ = False"

fun is_xor :: "'a op \<Rightarrow> bool" where
  "is_xor (Xor m) = True"
| "is_xor _ = False"

text \<open>All calls of the list are bitwise AND, or all are OR, or all are XOR.\<close>

definition same_bitwise_kind :: "'a op list \<Rightarrow> bool" where
  "same_bitwise_kind cs = (list_all is_and cs \<or> list_all is_or cs \<or> list_all is_xor cs)"

section \<open>Asynchronous execution (ldvc\_async.hpp)\<close>

text \<open>
  The shared state behind a \<^verbatim>\<open>std::future\<close>: not ready, or holding a value, or
  holding an exception. \<^verbatim>\<open>std::future_error\<close> carries one of four codes.
\<close>

datatype future_errc =
  broken_promise | future_already_retrieved | promise_already_satisfied | no_state

datatype exn = Runtime_error string | Future_error future_errc | Other_exception string

datatype 'r shared_state = Not_ready | Has_value 'r | Has_exception exn

text \<open>The non-blocking readiness query (\<^verbatim>\<open>wait_for\<close> with a zero duration).\<close>

definition is_ready :: "'r shared_state \<Rightarrow> bool" where
  "is_ready s = (s \<noteq> Not_ready)"

text \<open>\<^verbatim>\<open>get()\<close> on a shared state: the value, or the stored exception thrown again
  (\<open>Inl\<close>); \<open>None\<close> while the state is not ready and the caller stays blocked.\<close>

definition future_get :: "'r shared_state \<Rightarrow> (exn + 'r) option" where
  "future_get s =
     (case s of Not_ready \<Rightarrow> None | Has_value v \<Rightarrow> Some (Inr v) | Has_exception e \<Rightarrow> Some (Inl e))"

text \<open>
  A callable is a function to \<open>exn + 'r\<close>: \<open>Inr\<close> the value it returns, \<open>Inl\<close> the
  exception it throws. \<^verbatim>\<open>std::packaged_task\<close> and \<^verbatim>\<open>std::async\<close> run the callable
  and store what it returned or threw in the shared state.
\<close>

definition store_outcome :: "exn + 'r \<Rightarrow> 'r shared_state" where
  "store_outcome r = (case r of Inl e \<Rightarrow> Has_exception e | Inr v \<Rightarrow> Has_value v)"

subsection \<open>ldvc\_async\_execute\<close>





subsection \<open>ldvc\_async\_execute\_with\_delay\<close>

text \<open>
  The function hands \<^verbatim>\<open>std::async(std::launch::async, ...)\<close> a lambda that calls
  \<^verbatim>\<open>std::this_thread::sleep_for(delay)\<close> and then returns \<^verbatim>\<open>f(args...)\<close>.
  Time is a discrete clock in ticks of the duration type. The new thread is spawned, then
  it sleeps until a wake-up time, then it has finished. A duration may be negative, so
  the delay is an \<open>int\<close>. The state keeps the clock at the call and, once the thread has
  invoked the callable, the clock at that moment.
\<close>

datatype phase = Spawned | Sleeping int | Finished

record 'r delayed =
  clock :: int
  called_at :: int
  thread_phase :: phase
  sleep_duration :: int
  callable :: "unit \<Rightarrow> exn + 'r"
  invoked_at :: "int option"
  async_state :: "'r shared_state"

text \<open>\<^verbatim>\<open>std::async(std::launch::async, ...)\<close> at the clock \<open>now\<close>: the thread exists and
  has not run yet, the shared state is not ready.\<close>

definition async_launch :: "int \<Rightarrow> int \<Rightarrow> (unit \<Rightarrow> exn + 'r) \<Rightarrow> 'r delayed" where
  "async_launch now delay c =
     \<lparr>clock = now, called_at = now, thread_phase = Spawned, sleep_duration = delay,
      callable = c, invoked_at = None, async_state = Not_ready\<rparr>"

text \<open>
  What happens once the thread exists: time passes, or the scheduler lets the thread run
  as far as it can. A spawned thread enters \<^verbatim>\<open>sleep_for\<close>, which blocks it for at
  least the duration from now (not at all when the duration is zero or negative). A
  sleeping thread that runs before its wake-up time stays blocked; at or after it, the
  thread calls the callable and \<^verbatim>\<open>std::async\<close> stores the outcome in the shared
  state.
\<close>

datatype event = Time_passes nat | Thread_scheduled

definition thread_step :: "'r delayed \<Rightarrow> 'r delayed" where
  "thread_step st =
     (case thread_phase st of
        Spawned \<Rightarrow> st\<lparr>thread_phase := Sleeping (clock st + sleep_duration st)\<rparr>
      | Sleeping wake \<Rightarrow>
          if clock st < wake then st
          else st\<lparr>thread_phase := Finished, invoked_at := Some (clock st),
                  async_state := store_outcome (callable st ())\<rparr>
      | Finished \<Rightarrow> st)"

fun delayed_step :: "event \<Rightarrow> 'r delayed \<Rightarrow> 'r delayed" where
  "delayed_step (Time_passes d) st = st\<lparr>clock := clock st + int d\<rparr>"
| "delayed_step Thread_scheduled st = thread_step st"

definition run_delayed :: "event list \<Rightarrow> 'r delayed \<Rightarrow> 'r delayed" where
  "run_delayed evs st = fold delayed_step evs st"

text \<open>
  The call itself. \<^verbatim>\<open>std::async\<close> starts the thread before the function returns, so
  the thread may run, and time may pass, while the call is still on its way back to the
  caller: \<open>during\<close> are the events between the start of the thread and the return. The
  result is the state in which the caller holds the future and can first query it.
\<close>

definition ldvc_async_execute_with_delay ::
    "int \<Rightarrow> int \<Rightarrow> ('a \<Rightarrow> exn + 'r) \<Rightarrow> 'a \<Rightarrow> event list \<Rightarrow> 'r delayed" where
  "ldvc_async_execute_with_delay now delay f args during =
     run_delayed during (async_launch now delay (\<lambda>_. f args))"

text \<open>The invariant of a delayed task called at \<open>now\<close> with \<open>delay\<close>, whose callable
  has the outcome \<open>out\<close>.\<close>

definition delayed_inv :: "int \<Rightarrow> int \<Rightarrow> (exn + 'r) \<Rightarrow> 'r delayed \<Rightarrow> bool" where
  "delayed_inv now delay out st =
     (called_at st = now \<and> sleep_duration st = delay \<and> callable st () = out
      \<and> now \<le> clock st
      \<and> (case thread_phase st of
            Spawned \<Rightarrow> async_state st = Not_ready \<and> invoked_at st = None
          | Sleeping wake \<Rightarrow> now + delay \<le> wake \<and> wake \<le> clock st + delay
                \<and> async_state st = Not_ready \<and> invoked_at st = None
          | Finished \<Rightarrow> now + delay \<le> clock st \<and> async_state st = store_outcome out
                \<and> (\<exists>t. invoked_at st = Some t \<and> now + delay \<le> t)))"

subsection \<open>ldvc\_async\_execute\_with\_timeout\<close>

text \<open>
  The function declares a local \<^verbatim>\<open>std::promise\<close>, takes its future, starts two
  detached threads whose lambdas capture the promise by reference
  (\<^verbatim>\<open>[=, &promise]\<close>), and returns the future. The worker calls
  \<^verbatim>\<open>promise.set_value()\<close> with no argument and drops what \<^verbatim>\<open>f\<close> returns, so the
  function only compiles for callables that return \<^verbatim>\<open>void\<close>: the shared state holds a
  \<open>unit\<close>.

  The state: the shared state of the promise and the future, whether the local promise
  is still alive, the timeout, and the callable bound to its arguments.
\<close>

record race =
  promise_state :: "unit shared_state"
  promise_alive :: bool
  timer_duration :: int
  work :: "unit \<Rightarrow> exn + unit"

definition ldvc_async_execute_with_timeout ::
    "int \<Rightarrow> ('a \<Rightarrow> exn + unit) \<Rightarrow> 'a \<Rightarrow> race" where
  "ldvc_async_execute_with_timeout timeout f args =
     \<lparr>promise_state = Not_ready, promise_alive = True, timer_duration = timeout,
      work = (\<lambda>_. f args)\<rparr>"

text \<open>
  \<^verbatim>\<open>promise.set_value()\<close> and \<^verbatim>\<open>promise.set_exception(p)\<close>: they store into a
  shared state that is not ready, and throw
  \<^verbatim>\<open>std::future_error(promise_already_satisfied)\<close> when it already holds a value or
  an exception.
\<close>

definition promise_set :: "unit shared_state \<Rightarrow> race \<Rightarrow> exn + race" where
  "promise_set s st =
     (if is_ready (promise_state st) then Inl (Future_error promise_already_satisfied)
      else Inr (st\<lparr>promise_state := s\<rparr>))"

text \<open>The worker's lambda, from the moment \<^verbatim>\<open>f\<close> has finished: the handler of
  \<^verbatim>\<open>catch (...)\<close> stores the exception and returns; otherwise the value is set.\<close>

definition worker :: "race \<Rightarrow> exn + race" where
  "worker st =
     (case work st () of
        Inl e \<Rightarrow> promise_set (Has_exception e) st
      | Inr u \<Rightarrow> promise_set (Has_value ()) st)"

text \<open>The timer's lambda, from the moment \<^verbatim>\<open>sleep_for(timeout)\<close> has returned:
  \<^verbatim>\<open>promise.set_exception(std::make_exception_ptr(std::runtime_error("Timeout")))\<close>.\<close>

definition timer :: "race \<Rightarrow> exn + race" where
  "timer st = promise_set (Has_exception (Runtime_error ''Timeout'')) st"

text \<open>
  What can go wrong in a detached thread. An exception that leaves the thread's function
  calls \<^verbatim>\<open>std::terminate\<close>: neither lambda catches what \<open>promise_set\<close> throws. A
  lambda that uses the promise after the function has returned uses a destroyed object.
\<close>

datatype fault = Terminate exn | Dangling_promise

definition detached_thread :: "(race \<Rightarrow> exn + race) \<Rightarrow> race \<Rightarrow> fault + race" where
  "detached_thread body st =
     (if \<not> promise_alive st then Inl Dangling_promise
      else (case body st of Inl e \<Rightarrow> Inl (Terminate e) | Inr st' \<Rightarrow> Inr st'))"

text \<open>
  \<^verbatim>\<open>return result;\<close> ends the scope of the local promise. The destructor of a
  \<^verbatim>\<open>std::promise\<close> abandons the shared state: if it is not ready, it stores
  \<^verbatim>\<open>std::future_error(broken_promise)\<close> and makes it ready.
\<close>

definition function_returns :: "race \<Rightarrow> race" where
  "function_returns st =
     st\<lparr>promise_alive := False,
        promise_state :=
          (if is_ready (promise_state st) then promise_state st
           else Has_exception (Future_error broken_promise))\<rparr>"

text \<open>The three things that happen after the threads are started, in any order: the
  function returns to its caller, the worker finishes \<^verbatim>\<open>f\<close>, the timer expires.\<close>

datatype race_event = Function_returns | Worker_finishes | Timer_expires

fun race_step :: "race_event \<Rightarrow> race \<Rightarrow> fault + race" where
  "race_step Function_returns st = Inr (function_returns st)"
| "race_step Worker_finishes st = detached_thread worker st"
| "race_step Timer_expires st = detached_thread timer st"

fun run_race :: "race_event list \<Rightarrow> race \<Rightarrow> fault + race" where
  "run_race [] st = Inr st"
| "run_race (ev # evs) st =
     (case race_step ev st of Inl fl \<Rightarrow> Inl fl | Inr st' \<Rightarrow> run_race evs st')"

text \<open>\<^verbatim>\<open>get()\<close> on the returned future after a schedule: nothing once the process has
  faulted.\<close>

definition handle_get :: "fault + race \<Rightarrow> (exn + unit) option" where
  "handle_get r = (case r of Inl fl \<Rightarrow> None | Inr st \<Rightarrow> future_get (promise_state st))"

section \<open>Properties of the atomic operations\<close>

subsection \<open>A call on a guard whose mutex is free\<close>

lemma call_free:
  assumes "\<not> mutex_locked g"
  shows "call g (Create v) = Some (None, g\<lparr>var := v\<rparr>)"
    and "call g Delete = Some (None, g\<lparr>var := 0\<rparr>)"
    and "call g (Inc d) = Some (None, g\<lparr>var := var g + d\<rparr>)"
    and "call g (Dec d) = Some (None, g\<lparr>var := var g - d\<rparr>)"
    and "call g (And m) = Some (None, g\<lparr>var := var g AND m\<rparr>)"
    and "call g (Or m) = Some (None, g\<lparr>var := var g OR m\<rparr>)"
    and "call g (Xor m) = Some (None, g\<lparr>var := var g XOR m\<rparr>)"
    and "call g (Exchange v) = Some (Some (var g), g\<lparr>var := v\<rparr>)"
    and "call g Load = Some (Some (var g), g)"
    and "call g (Store v) = Some (None, g\<lparr>var := v\<rparr>)"
  using assms
  by (simp_all add: lock_guard_def returns_void_def returns_value_def
      ldvc_atomic_create_def ldvc_atomic_delete_def ldvc_atomic_inc_def ldvc_atomic_dec_def
      ldvc_atomic_and_def ldvc_atomic_or_def ldvc_atomic_xor_def ldvc_atomic_exchange_def
      ldvc_atomic_load_def ldvc_atomic_store_def)

lemma call_effect:
  assumes "\<not> mutex_locked g"
  shows "\<exists>r. call g c = Some (r, g\<lparr>var := effect c (var g)\<rparr>)"
  by (cases c) (use assms in \<open>simp_all add: call_free del: call.simps\<close>)

lemma run_history_effect:
  "\<not> mutex_locked g \<Longrightarrow>
     \<exists>rs. run_history g cs = Some (rs, g\<lparr>var := fold effect cs (var g)\<rparr>)
        \<and> length rs = length cs"
proof (induction cs arbitrary: g)
  case Nil
  then show ?case by simp
next
  case (Cons c cs)
  from call_effect [OF Cons.prems, of c]
  obtain r where c: "call g c = Some (r, g\<lparr>var := effect c (var g)\<rparr>)" by blast
  have "\<not> mutex_locked (g\<lparr>var := effect c (var g)\<rparr>)" using Cons.prems by simp
  from Cons.IH [OF this] c show ?case by auto
qed

lemma final_value_fold:
  "\<not> mutex_locked g \<Longrightarrow> final_value g cs = Some (fold effect cs (var g))"
  using run_history_effect [of g cs] by (auto simp: final_value_def)

lemma load_free:
  "\<not> mutex_locked g \<Longrightarrow> ldvc_atomic_load g = Some (var g, g)"
  by (simp add: ldvc_atomic_load_def lock_guard_def)

lemma exchange_free:
  "\<not> mutex_locked g \<Longrightarrow> ldvc_atomic_exchange g v = Some (var g, g\<lparr>var := v\<rparr>)"
  by (simp add: ldvc_atomic_exchange_def lock_guard_def)

text \<open>The calls of the repository's example program on an \<^verbatim>\<open>std::atomic<i32>\<close>,
  with the loads it prints.\<close>

lemma example_history:
  "run_history \<lparr>var = 7 :: 32 word, mutex_locked = False\<rparr>
     [Create 0, Inc 5, Load, Dec 1, Load, Inc 2, Load, And 2, Load, Or 2, Load, Xor 2, Load,
      Exchange 10, Load, Load, Store 20, Load, Delete]
   = Some ([None, None, Some 5, None, Some 4, None, Some 6, None, Some 2, None, Some 2, None,
            Some 0, Some 0, Some 10, Some 10, None, Some 20, None],
           \<lparr>var = 0, mutex_locked = False\<rparr>)"
  by (simp add: call_free del: call.simps)

subsection \<open>Exchange\<close>

lemma fold_effect_loads: "list_all (\<lambda>c. c = Load) ls \<Longrightarrow> fold effect ls x = x"
  by (induction ls arbitrary: x) auto

lemma set_value_effect: "set_value s = Some w \<Longrightarrow> effect s x = w"
  by (cases s) auto

lemma most_recent_loads: "list_all (\<lambda>c. c = Load) ls \<Longrightarrow> spec_most_recent_set ls = None"
  by (induction ls) auto

lemma most_recent_append:
  "spec_most_recent_set (pre @ cs) =
     (case spec_most_recent_set cs of Some v \<Rightarrow> Some v | None \<Rightarrow> spec_most_recent_set pre)"
  by (induction pre) (auto split: option.splits)

text \<open>
  C4, as amended. After every serialized history on a guard whose mutex is free,
  \<open>ldvc_atomic_exchange\<close> returns the value the guard holds immediately before the
  exchange and leaves the guard holding exactly the new value. The returned value is the
  one set by the most recent prior store, exchange or create whenever only loads were
  serialized after that call. (An increment, decrement, bitwise operation or reset in
  between changes what the exchange returns.)
\<close>

theorem exchange_returns_previous_value:
  assumes "\<not> mutex_locked g"
  shows "\<exists>rs g'. run_history g h = Some (rs, g')
           \<and> ldvc_atomic_exchange g' v = Some (var g', g'\<lparr>var := v\<rparr>)
           \<and> (\<forall>pre s ls w. h = pre @ s # ls \<and> set_value s = Some w
                 \<and> list_all (\<lambda>c. c = Load) ls
               \<longrightarrow> var g' = w \<and> spec_most_recent_set h = Some w)"
proof -
  from run_history_effect [OF assms, of h]
  obtain rs where rs: "run_history g h = Some (rs, g\<lparr>var := fold effect h (var g)\<rparr>)"
    by blast
  let ?g' = "g\<lparr>var := fold effect h (var g)\<rparr>"
  have free: "\<not> mutex_locked ?g'" using assms by simp
  have ex: "ldvc_atomic_exchange ?g' v = Some (var ?g', ?g'\<lparr>var := v\<rparr>)"
    by (rule exchange_free [OF free])
  have last: "var ?g' = w \<and> spec_most_recent_set h = Some w"
    if "h = pre @ s # ls" "set_value s = Some w" "list_all (\<lambda>c. c = Load) ls"
    for pre s ls w
    using that
    by (simp add: fold_effect_loads set_value_effect most_recent_append most_recent_loads)
  from rs ex last show ?thesis by blast
qed

theorem exchange_returns_previous_value_witness:
  "\<exists>rs g'. run_history \<lparr>var = 3 :: 32 word, mutex_locked = False\<rparr> [Inc 4, Store 9, Load]
             = Some (rs, g')
           \<and> ldvc_atomic_exchange g' 10 = Some (9, g'\<lparr>var := 10\<rparr>)
           \<and> spec_most_recent_set [Inc 4, Store 9, Load :: 32 word op] = Some 9"
proof -
  from exchange_returns_previous_value
    [of "\<lparr>var = 3 :: 32 word, mutex_locked = False\<rparr>" "[Inc 4, Store 9, Load]" 10]
  obtain rs g' where
    r: "run_history \<lparr>var = 3 :: 32 word, mutex_locked = False\<rparr> [Inc 4, Store 9, Load]
          = Some (rs, g')"
    and e: "ldvc_atomic_exchange g' 10 = Some (var g', g'\<lparr>var := 10\<rparr>)"
    and l: "\<forall>pre s ls w. [Inc 4, Store 9, Load] = pre @ s # ls \<and> set_value s = Some w
                 \<and> list_all (\<lambda>c. c = Load) ls
               \<longrightarrow> var g' = w \<and> spec_most_recent_set [Inc 4, Store 9, Load :: 32 word op] = Some w"
    by auto
  from l [rule_format, of "[Inc 4]" "Store 9" "[Load]" 9]
  have "var g' = 9 \<and> spec_most_recent_set [Inc 4, Store 9, Load :: 32 word op] = Some 9"
    by simp
  with r e show ?thesis by auto
qed

text \<open>
  C4 as stated fails: after create(0) and increment(5) an exchange returns 5, while the
  most recent prior store, exchange or create set 0.
\<close>

theorem exchange_most_recent_set_counterexample:
  "map_option fst (exchange_after \<lparr>var = 0 :: 32 word, mutex_locked = False\<rparr>
       [Create 0, Inc 5] 10) = Some 5
   \<and> spec_most_recent_set [Create 0, Inc 5 :: 32 word op] = Some 0
   \<and> map_option fst (exchange_after \<lparr>var = 0 :: 32 word, mutex_locked = False\<rparr>
       [Create 0, Inc 5] 10) \<noteq> spec_most_recent_set [Create 0, Inc 5]"
  by (simp add: exchange_after_def returns_void_def ldvc_atomic_create_def ldvc_atomic_inc_def
      ldvc_atomic_exchange_def lock_guard_def)

subsection \<open>Increment and decrement\<close>

lemma fold_inc_dec:
  "list_all is_inc_dec cs \<Longrightarrow>
     fold effect cs x = x + word_of_int (sum_list (map signed_delta cs))"
proof (induction cs arbitrary: x)
  case Nil
  then show ?case by simp
next
  case (Cons c cs)
  then show ?case by (cases c) (simp_all add: algebra_simps)
qed

lemma sum_list_perm:
  fixes f :: "'b \<Rightarrow> int"
  assumes "mset xs = mset ys"
  shows "sum_list (map f xs) = sum_list (map f ys)"
proof -
  have "sum_list (map f xs) = sum_mset (image_mset f (mset xs))"
    by (simp flip: sum_mset_sum_list)
  also have "\<dots> = sum_mset (image_mset f (mset ys))"
    by (simp add: assms)
  also have "\<dots> = sum_list (map f ys)"
    by (simp flip: sum_mset_sum_list)
  finally show ?thesis .
qed

lemma list_all_perm: "mset xs = mset ys \<Longrightarrow> list_all P xs = list_all P ys"
  by (auto simp: list_all_iff dest: mset_eq_setD)

text \<open>
  C5. A finite sequence \<open>cs\<close> of \<open>ldvc_atomic_inc\<close> and \<open>ldvc_atomic_dec\<close> calls with
  arbitrary deltas is applied to one guard whose value is 0. In whichever order \<open>cs'\<close>
  the calls are serialized, the final value of the guard is the sum of all signed deltas,
  wrapped to the width of the integer type.
\<close>

theorem inc_dec_sum_of_deltas:
  assumes "\<not> mutex_locked g" and "var g = 0"
    and "list_all is_inc_dec cs" and "mset cs' = mset cs"
  shows "final_value g cs' = Some (word_of_int (sum_list (map signed_delta cs)))"
proof -
  have "list_all is_inc_dec cs'"
    using assms(3,4) list_all_perm [of cs' cs is_inc_dec] by simp
  then have "fold effect cs' (var g) = word_of_int (sum_list (map signed_delta cs'))"
    using assms(2) by (simp add: fold_inc_dec)
  also have "sum_list (map signed_delta cs') = sum_list (map signed_delta cs)"
    by (rule sum_list_perm [OF assms(4)])
  finally show ?thesis
    using assms(1) by (simp add: final_value_fold)
qed

theorem inc_dec_sum_of_deltas_witness:
  "final_value \<lparr>var = 0 :: 8 word, mutex_locked = False\<rparr> [Dec 3, Inc 200, Inc 100]
     = Some (word_of_int (200 - 256 - 3 + 100))
   \<and> final_value \<lparr>var = 0 :: 8 word, mutex_locked = False\<rparr> [Dec 3, Inc 200, Inc 100]
     = Some 41"
  using inc_dec_sum_of_deltas [of "\<lparr>var = 0 :: 8 word, mutex_locked = False\<rparr>"
      "[Inc 200, Inc 100, Dec 3]" "[Dec 3, Inc 200, Inc 100]"]
  by simp

subsection \<open>Bitwise operations\<close>

lemma same_kind_commute:
  assumes "same_bitwise_kind cs" and "a \<in> set cs" and "b \<in> set cs"
  shows "effect a (effect b x) = effect b (effect a x)"
proof -
  from assms have "(is_and a \<and> is_and b) \<or> (is_or a \<and> is_or b) \<or> (is_xor a \<and> is_xor b)"
    by (auto simp: same_bitwise_kind_def list_all_iff)
  then show ?thesis
    by (cases a; cases b) (simp_all add: ac_simps)
qed

text \<open>
  C6, as amended. For a fixed multiset of operations of one kind (all
  \<open>ldvc_atomic_and\<close>, or all \<open>ldvc_atomic_or\<close>, or all \<open>ldvc_atomic_xor\<close>) applied to one
  guard, the final value is the same for every order of the operations. Across kinds the
  order matters (AND 0 then OR 1 differs from OR 1 then AND 0), and so it does when a
  bitwise operation is mixed with a store or an exchange.
\<close>

theorem bitwise_same_kind_order_independent:
  "(\<not> mutex_locked g \<and> same_bitwise_kind cs \<and> mset cs' = mset cs
      \<longrightarrow> final_value g cs' = final_value g cs \<and> final_value g cs \<noteq> None)
   \<and> final_value \<lparr>var = 0 :: 32 word, mutex_locked = False\<rparr> [And 0, Or 1]
       \<noteq> final_value \<lparr>var = 0, mutex_locked = False\<rparr> [Or 1, And 0]
   \<and> final_value \<lparr>var = 0 :: 32 word, mutex_locked = False\<rparr> [Or 1, Store 0]
       \<noteq> final_value \<lparr>var = 0, mutex_locked = False\<rparr> [Store 0, Or 1]
   \<and> final_value \<lparr>var = 0 :: 32 word, mutex_locked = False\<rparr> [Xor 1, Exchange 0]
       \<noteq> final_value \<lparr>var = 0, mutex_locked = False\<rparr> [Exchange 0, Xor 1]"
proof -
  have "final_value g cs' = final_value g cs \<and> final_value g cs \<noteq> None"
    if free: "\<not> mutex_locked g" and kind: "same_bitwise_kind cs" and perm: "mset cs' = mset cs"
  proof -
    have "fold effect cs (var g) = fold effect cs' (var g)"
      by (rule fold_permuted_eq [where P = "\<lambda>_. True"])
         (use perm kind in \<open>auto intro: same_kind_commute\<close>)
    then show ?thesis using free by (simp add: final_value_fold)
  qed
  moreover have "final_value \<lparr>var = 0 :: 32 word, mutex_locked = False\<rparr> [And 0, Or 1]
       \<noteq> final_value \<lparr>var = 0, mutex_locked = False\<rparr> [Or 1, And 0]"
    by (simp add: final_value_fold)
  moreover have "final_value \<lparr>var = 0 :: 32 word, mutex_locked = False\<rparr> [Or 1, Store 0]
       \<noteq> final_value \<lparr>var = 0, mutex_locked = False\<rparr> [Store 0, Or 1]"
    by (simp add: final_value_fold)
  moreover have "final_value \<lparr>var = 0 :: 32 word, mutex_locked = False\<rparr> [Xor 1, Exchange 0]
       \<noteq> final_value \<lparr>var = 0, mutex_locked = False\<rparr> [Exchange 0, Xor 1]"
    by (simp add: final_value_fold)
  ultimately show ?thesis by blast
qed

theorem bitwise_same_kind_order_independent_witness:
  "same_bitwise_kind [Or 1, Or 6, Or 8 :: 32 word op]
   \<and> final_value \<lparr>var = 16 :: 32 word, mutex_locked = False\<rparr> [Or 8, Or 1, Or 6]
     = final_value \<lparr>var = 16, mutex_locked = False\<rparr> [Or 1, Or 6, Or 8]
   \<and> final_value \<lparr>var = 16 :: 32 word, mutex_locked = False\<rparr> [Or 1, Or 6, Or 8] = Some 31"
proof -
  have k: "same_bitwise_kind [Or 1, Or 6, Or 8 :: 32 word op]"
    by (simp add: same_bitwise_kind_def)
  have v: "final_value \<lparr>var = 16 :: 32 word, mutex_locked = False\<rparr> [Or 1, Or 6, Or 8] = Some 31"
    by (simp add: final_value_fold)
  from bitwise_same_kind_order_independent
    [of "\<lparr>var = 16 :: 32 word, mutex_locked = False\<rparr>" "[Or 1, Or 6, Or 8]" "[Or 8, Or 1, Or 6]"] k v
  show ?thesis by simp
qed

text \<open>
  C6 as stated fails: the multiset of an AND with 0 and an OR with 1, applied to a guard
  holding 0, leaves 1 in one order and 0 in the other.
\<close>

theorem bitwise_mixed_kinds_counterexample:
  "list_all (\<lambda>c. is_and c \<or> is_or c \<or> is_xor c) [And 0, Or 1 :: 32 word op]
   \<and> mset [Or 1, And 0 :: 32 word op] = mset [And 0, Or 1]
   \<and> final_value \<lparr>var = 0 :: 32 word, mutex_locked = False\<rparr> [And 0, Or 1] = Some 1
   \<and> final_value \<lparr>var = 0 :: 32 word, mutex_locked = False\<rparr> [Or 1, And 0] = Some 0"
  by (simp add: final_value_def returns_void_def ldvc_atomic_and_def ldvc_atomic_or_def
      lock_guard_def)

subsection \<open>No operation fails\<close>

text \<open>
  C8. No operation on a guard fails observably. The functions have no error branch: the
  only way a call does not return a result is to wait for a mutex that is owned, and in
  a serialized history that never happens. From every guard whose mutex is free,
  \<open>ldvc_atomic_load\<close> returns the current value, and every history of create, store,
  increment, decrement, bitwise, reset, exchange and load calls returns a result for
  each call and leaves the mutex free, so that a load after it returns the current value
  again.
\<close>

theorem guard_operations_never_fail:
  assumes "\<not> mutex_locked g"
  shows "ldvc_atomic_load g = Some (var g, g)
         \<and> (\<exists>rs g'. run_history g cs = Some (rs, g') \<and> length rs = length cs
               \<and> \<not> mutex_locked g' \<and> ldvc_atomic_load g' = Some (var g', g'))"
proof -
  from run_history_effect [OF assms, of cs]
  obtain rs where rs: "run_history g cs = Some (rs, g\<lparr>var := fold effect cs (var g)\<rparr>)"
    and len: "length rs = length cs"
    by blast
  have free: "\<not> mutex_locked (g\<lparr>var := fold effect cs (var g)\<rparr>)"
    using assms by simp
  from rs len free load_free [OF free] load_free [OF assms] show ?thesis by blast
qed

theorem guard_operations_never_fail_witness:
  "ldvc_atomic_load \<lparr>var = 5 :: 32 word, mutex_locked = False\<rparr>
     = Some (5, \<lparr>var = 5, mutex_locked = False\<rparr>)
   \<and> (\<exists>rs g'. run_history \<lparr>var = 5 :: 32 word, mutex_locked = False\<rparr>
          [Create 0, Inc 5, Dec 1, And 2, Or 2, Xor 2, Exchange 10, Load, Store 20, Delete]
            = Some (rs, g') \<and> length rs = 10 \<and> \<not> mutex_locked g')"
  using guard_operations_never_fail [of "\<lparr>var = 5 :: 32 word, mutex_locked = False\<rparr>"
      "[Create 0, Inc 5, Dec 1, And 2, Or 2, Xor 2, Exchange 10, Load, Store 20, Delete]"]
  by auto

subsection \<open>Reset\<close>

text \<open>
  C9. \<open>ldvc_atomic_delete\<close> leaves the guard holding exactly the default value of the
  value type, whatever it held before, and the guard itself stays: it is the same guard
  with only the value replaced, and a load on it returns that default value.
\<close>

theorem delete_resets_to_default:
  assumes "\<not> mutex_locked g"
  shows "ldvc_atomic_delete g = Some ((), g\<lparr>var := 0\<rparr>)
         \<and> ldvc_atomic_load (g\<lparr>var := 0\<rparr>) = Some (0, g\<lparr>var := 0\<rparr>)"
  using assms
  by (simp add: ldvc_atomic_delete_def ldvc_atomic_load_def lock_guard_def)

theorem delete_resets_to_default_witness:
  "ldvc_atomic_delete \<lparr>var = 20 :: 32 word, mutex_locked = False\<rparr>
     = Some ((), \<lparr>var = 0, mutex_locked = False\<rparr>)
   \<and> ldvc_atomic_load \<lparr>var = 0 :: 32 word, mutex_locked = False\<rparr>
     = Some (0, \<lparr>var = 0, mutex_locked = False\<rparr>)"
  using delete_resets_to_default [of "\<lparr>var = 20 :: 32 word, mutex_locked = False\<rparr>"]
  by simp

subsection \<open>Create and store\<close>

text \<open>The body of a function runs while \<open>lock_guard\<close> owns the mutex: a body that reports
  the mutex sees it owned, and the mutex is free again afterwards.\<close>

lemma lock_guard_body_owns_mutex:
  "\<not> mutex_locked g \<Longrightarrow>
     lock_guard (\<lambda>s. (mutex_locked s, s\<lparr>var := v\<rparr>)) g = Some (True, g\<lparr>var := v\<rparr>)"
  by (simp add: lock_guard_def)

text \<open>
  C10. \<open>ldvc_atomic_create\<close> and \<open>ldvc_atomic_store\<close> are behaviorally identical: for
  every guard, whatever it holds, and every argument, both give the same result. Both
  work under the lock: on a guard whose mutex is owned neither returns nor changes the
  value before it gets the mutex, and on a guard whose mutex is free both replace the
  value with the argument unconditionally, while they own the mutex, release it and
  return nothing. Create on an initialized guard is a store.
\<close>

theorem create_store_identical:
  "ldvc_atomic_create g v = ldvc_atomic_store g v
   \<and> (mutex_locked g \<longrightarrow> ldvc_atomic_create g v = None \<and> ldvc_atomic_store g v = None)
   \<and> (\<not> mutex_locked g \<longrightarrow>
        ldvc_atomic_create g v = Some ((), g\<lparr>var := v\<rparr>)
      \<and> ldvc_atomic_store g v = Some ((), g\<lparr>var := v\<rparr>)
      \<and> lock_guard (\<lambda>s. (mutex_locked s, s\<lparr>var := v\<rparr>)) g = Some (True, g\<lparr>var := v\<rparr>))"
proof (cases "mutex_locked g")
  case True
  then have "ldvc_atomic_create g v = None" and "ldvc_atomic_store g v = None"
    by (simp_all add: ldvc_atomic_create_def ldvc_atomic_store_def lock_guard_def)
  with True show ?thesis by simp
next
  case False
  then have c: "ldvc_atomic_create g v = Some ((), g\<lparr>var := v\<rparr>)"
    and s: "ldvc_atomic_store g v = Some ((), g\<lparr>var := v\<rparr>)"
    by (simp_all add: ldvc_atomic_create_def ldvc_atomic_store_def lock_guard_def)
  from False c s lock_guard_body_owns_mutex [OF False, of v] show ?thesis by simp
qed

theorem create_store_identical_witness:
  "ldvc_atomic_create \<lparr>var = 7 :: 32 word, mutex_locked = False\<rparr> 20
     = ldvc_atomic_store \<lparr>var = 7, mutex_locked = False\<rparr> 20
   \<and> ldvc_atomic_create \<lparr>var = 7 :: 32 word, mutex_locked = False\<rparr> 20
     = Some ((), \<lparr>var = 20, mutex_locked = False\<rparr>)
   \<and> ldvc_atomic_store \<lparr>var = 7 :: 32 word, mutex_locked = False\<rparr> 20
     = Some ((), \<lparr>var = 20, mutex_locked = False\<rparr>)
   \<and> ldvc_atomic_create \<lparr>var = 7 :: 32 word, mutex_locked = True\<rparr> 20 = None
   \<and> ldvc_atomic_store \<lparr>var = 7 :: 32 word, mutex_locked = True\<rparr> 20 = None"
  using create_store_identical [of "\<lparr>var = 7 :: 32 word, mutex_locked = False\<rparr>" 20]
    create_store_identical [of "\<lparr>var = 7 :: 32 word, mutex_locked = True\<rparr>" 20]
  by simp

section \<open>Properties of asynchronous execution\<close>



subsection \<open>Delayed execution\<close>

lemma run_delayed_append:
  "run_delayed (evs @ evs') st = run_delayed evs' (run_delayed evs st)"
  by (simp add: run_delayed_def)

lemma delayed_inv_launch: "delayed_inv now delay (c ()) (async_launch now delay c)"
  by (simp add: delayed_inv_def async_launch_def)

lemma delayed_inv_step:
  "delayed_inv now delay out st \<Longrightarrow> delayed_inv now delay out (delayed_step ev st)"
  by (cases ev) (auto simp: delayed_inv_def thread_step_def split: phase.splits)

lemma delayed_inv_run:
  "delayed_inv now delay out st \<Longrightarrow> delayed_inv now delay out (run_delayed evs st)"
  unfolding run_delayed_def
  by (induction evs arbitrary: st) (simp_all add: delayed_inv_step)

lemma delayed_inv_call:
  "delayed_inv now delay (f args) (ldvc_async_execute_with_delay now delay f args during)"
  unfolding ldvc_async_execute_with_delay_def
  by (rule delayed_inv_run [OF delayed_inv_launch])

lemma is_ready_store_outcome: "is_ready (store_outcome out)"
  by (cases out) (simp_all add: is_ready_def store_outcome_def)

text \<open>Safety: a ready future means the delay has elapsed; so does an invoked callable.\<close>

lemma delayed_inv_ready:
  assumes "delayed_inv now delay out st"
  shows "(is_ready (async_state st) \<longrightarrow> now + delay \<le> clock st \<and> async_state st = store_outcome out)
     \<and> (\<forall>t. invoked_at st = Some t \<longrightarrow> now + delay \<le> t)"
  using assms by (cases "thread_phase st") (auto simp: delayed_inv_def is_ready_def)

text \<open>Progress: from every reachable state, once the thread has been scheduled, as much
  time as the delay or more has passed and the thread is scheduled again, the callable has
  been invoked and its outcome is in the shared state.\<close>

lemma delayed_inv_progress:
  assumes inv: "delayed_inv now delay out st" and d: "delay \<le> int d"
  shows "thread_phase (run_delayed [Thread_scheduled, Time_passes d, Thread_scheduled] st) = Finished"
proof (cases "thread_phase st")
  case Spawned
  moreover from inv have "sleep_duration st = delay"
    by (simp add: delayed_inv_def)
  ultimately show ?thesis
    using d by (simp add: run_delayed_def thread_step_def)
next
  case (Sleeping wake)
  with inv have w: "wake \<le> clock st + delay"
    by (simp add: delayed_inv_def)
  show ?thesis
  proof (cases "clock st < wake")
    case True
    with Sleeping w d show ?thesis
      by (simp add: run_delayed_def thread_step_def)
  next
    case False
    with Sleeping show ?thesis
      by (simp add: run_delayed_def thread_step_def)
  qed
next
  case Finished
  then show ?thesis
    by (simp add: run_delayed_def thread_step_def)
qed

lemma delayed_inv_finished:
  assumes "delayed_inv now delay out st" and "thread_phase st = Finished"
  shows "is_ready (async_state st) \<and> async_state st = store_outcome out
     \<and> (\<exists>t. invoked_at st = Some t \<and> now + delay \<le> t)"
  using assms by (simp add: delayed_inv_def is_ready_store_outcome)

text \<open>
  C7, as amended. A call of \<open>ldvc_async_execute_with_delay\<close> is made at the clock \<open>now\<close>;
  \<open>s0\<close> is the state in which it returns the future, \<open>s\<close> a state after any further
  events, \<open>s'\<close> the state after the thread is scheduled, at least the delay passes and the
  thread is scheduled again. Then: the thread invokes \<open>f\<close> only when at least the delay
  has elapsed since the call, that is after its sleep; the future is ready only when at
  least the delay has elapsed, and then it holds the outcome of \<open>f\<close>; with a positive delay
  the future is not ready immediately after submission, when no time has elapsed; and
  in \<open>s'\<close> the thread has slept, has invoked \<open>f\<close> and the future is ready with the outcome
  of \<open>f\<close>. (With a delay of zero or less the future may be ready at the caller's first
  query.)
\<close>

theorem delay_sleeps_before_running:
  assumes "s0 = ldvc_async_execute_with_delay now delay f args during"
    and "s = run_delayed evs s0"
    and "s' = run_delayed [Thread_scheduled, Time_passes d, Thread_scheduled] s"
    and "delay \<le> int d"
  shows "(\<forall>t. invoked_at s = Some t \<longrightarrow> now + delay \<le> t)
     \<and> (is_ready (async_state s)
          \<longrightarrow> now + delay \<le> clock s \<and> async_state s = store_outcome (f args))
     \<and> (0 < delay \<and> clock s0 = now \<longrightarrow> \<not> is_ready (async_state s0))
     \<and> (clock s < now + delay \<longrightarrow> \<not> is_ready (async_state s) \<and> invoked_at s = None)
     \<and> is_ready (async_state s') \<and> async_state s' = store_outcome (f args)
     \<and> (\<exists>t. invoked_at s' = Some t \<and> now + delay \<le> t)"
proof -
  have inv0: "delayed_inv now delay (f args) s0"
    unfolding assms(1) by (rule delayed_inv_call)
  have inv: "delayed_inv now delay (f args) s"
    unfolding assms(2) by (rule delayed_inv_run [OF inv0])
  have inv': "delayed_inv now delay (f args) s'"
    unfolding assms(3) by (rule delayed_inv_run [OF inv])
  have fin: "thread_phase s' = Finished"
    unfolding assms(3) by (rule delayed_inv_progress [OF inv assms(4)])
  note safe = delayed_inv_ready [OF inv]
  note safe0 = delayed_inv_ready [OF inv0]
  have early: "\<not> is_ready (async_state s) \<and> invoked_at s = None" if "clock s < now + delay"
    using inv that by (cases "thread_phase s") (auto simp: delayed_inv_def is_ready_def)
  have first: "\<not> is_ready (async_state s0)" if "0 < delay \<and> clock s0 = now"
    using safe0 that by auto
  from safe early first delayed_inv_finished [OF inv' fin] show ?thesis
    by blast
qed

theorem delay_sleeps_before_running_witness:
  "\<not> is_ready (async_state
        (ldvc_async_execute_with_delay 1000 500 (\<lambda>x::int. (Inr (x * 2) :: exn + int)) 21
           [Thread_scheduled]))
   \<and> \<not> is_ready (async_state (run_delayed [Time_passes 499, Thread_scheduled]
        (ldvc_async_execute_with_delay 1000 500 (\<lambda>x::int. (Inr (x * 2) :: exn + int)) 21
           [Thread_scheduled])))
   \<and> async_state (run_delayed [Thread_scheduled, Time_passes 501, Thread_scheduled]
        (run_delayed [Time_passes 499, Thread_scheduled]
          (ldvc_async_execute_with_delay 1000 500 (\<lambda>x::int. (Inr (x * 2) :: exn + int)) 21
             [Thread_scheduled]))) = Has_value 42
   \<and> invoked_at (run_delayed [Thread_scheduled, Time_passes 501, Thread_scheduled]
        (run_delayed [Time_passes 499, Thread_scheduled]
          (ldvc_async_execute_with_delay 1000 500 (\<lambda>x::int. (Inr (x * 2) :: exn + int)) 21
             [Thread_scheduled]))) = Some 2000"
proof -
  let ?init = "ldvc_async_execute_with_delay 1000 500 (\<lambda>x::int. (Inr (x * 2) :: exn + int)) 21
           [Thread_scheduled]"
  let ?mid = "run_delayed [Time_passes 499, Thread_scheduled] ?init"
  let ?later = "run_delayed [Thread_scheduled, Time_passes 501, Thread_scheduled] ?mid"
  have c0: "clock ?init = 1000"
    by (simp add: ldvc_async_execute_with_delay_def async_launch_def run_delayed_def
        thread_step_def)
  have c: "clock ?mid < 1000 + 500"
    by (simp add: ldvc_async_execute_with_delay_def async_launch_def run_delayed_def
        thread_step_def)
  have i: "invoked_at ?later = Some 2000"
    by (simp add: ldvc_async_execute_with_delay_def async_launch_def run_delayed_def
        thread_step_def)
  have d: "(500 :: int) \<le> int 501" by simp
  from delay_sleeps_before_running [where now = 1000 and delay = 500
      and f = "\<lambda>x::int. (Inr (x * 2) :: exn + int)" and args = 21
      and during = "[Thread_scheduled]" and evs = "[Time_passes 499, Thread_scheduled]"
      and d = 501, OF refl refl refl d] c0 c i
  show ?thesis by (simp add: store_outcome_def)
qed

text \<open>
  C7 as stated fails for a delay that is not positive: with the delay 0 the thread, which
  \<^verbatim>\<open>std::async\<close> starts before the function returns, passes its sleep at once and runs
  \<open>f\<close>, so the future is ready at the caller's first query, with no time elapsed.
\<close>

theorem delay_zero_ready_at_once_counterexample:
  "is_ready (async_state
      (ldvc_async_execute_with_delay 1000 0 (\<lambda>x::int. (Inr (x * 2) :: exn + int)) 21
         [Thread_scheduled, Thread_scheduled]))
   \<and> clock (ldvc_async_execute_with_delay 1000 0 (\<lambda>x::int. (Inr (x * 2) :: exn + int)) 21
         [Thread_scheduled, Thread_scheduled]) = 1000"
  by (simp add: ldvc_async_execute_with_delay_def async_launch_def run_delayed_def
      thread_step_def is_ready_def store_outcome_def)

subsection \<open>Execution with a timeout\<close>

lemmas race_defs = ldvc_async_execute_with_timeout_def promise_set_def worker_def timer_def
  detached_thread_def function_returns_def is_ready_def handle_get_def future_get_def

text \<open>The shared state is written at most once: no event changes a ready state.\<close>

lemma race_step_keeps_ready:
  "is_ready (promise_state st) \<Longrightarrow> race_step ev st = Inr st'
     \<Longrightarrow> promise_state st' = promise_state st"
  by (cases ev) (auto simp: race_defs split: if_splits sum.splits)

lemma run_race_keeps_ready:
  "is_ready (promise_state st) \<Longrightarrow> run_race evs st = Inr st'
     \<Longrightarrow> promise_state st' = promise_state st"
proof (induction evs arbitrary: st)
  case Nil
  then show ?case by simp
next
  case (Cons ev evs)
  from Cons.prems(2) obtain st1 where s1: "race_step ev st = Inr st1"
    and r: "run_race evs st1 = Inr st'"
    by (auto split: sum.splits)
  from race_step_keeps_ready [OF Cons.prems(1) s1]
  have eq: "promise_state st1 = promise_state st" .
  with Cons.prems(1) have "is_ready (promise_state st1)" by simp
  from Cons.IH [OF this r] eq show ?case by simp
qed

text \<open>
  C1, at the failing input. The claim: in every order of the worker's completion and the
  timer's expiry the handle resolves exactly once, to the task's outcome or to the
  timeout, and the losing write is discarded as a no-op. The code, for every callable
  and timeout: when both writes reach the promise while it is alive, in either order,
  the second one throws \<^verbatim>\<open>future_error(promise_already_satisfied)\<close> out of its
  detached thread and the process terminates; in every other order a thread writes
  through the reference to the promise after the function has returned and destroyed it.
  No order of the three events ends with the losing write discarded.
\<close>

theorem timeout_losing_write_faults:
  "run_race [Worker_finishes, Timer_expires, Function_returns]
       (ldvc_async_execute_with_timeout timeout f args)
     = Inl (Terminate (Future_error promise_already_satisfied))
   \<and> run_race [Timer_expires, Worker_finishes, Function_returns]
       (ldvc_async_execute_with_timeout timeout f args)
     = Inl (Terminate (Future_error promise_already_satisfied))
   \<and> run_race [Worker_finishes, Function_returns, Timer_expires]
       (ldvc_async_execute_with_timeout timeout f args) = Inl Dangling_promise
   \<and> run_race [Timer_expires, Function_returns, Worker_finishes]
       (ldvc_async_execute_with_timeout timeout f args) = Inl Dangling_promise
   \<and> run_race [Function_returns, Worker_finishes, Timer_expires]
       (ldvc_async_execute_with_timeout timeout f args) = Inl Dangling_promise
   \<and> run_race [Function_returns, Timer_expires, Worker_finishes]
       (ldvc_async_execute_with_timeout timeout f args) = Inl Dangling_promise"
  by (cases "f args") (simp_all add: race_defs)

text \<open>
  C2, at the failing input. The claim: when the worker completes successfully before the
  timer fires, \<^verbatim>\<open>get()\<close> on the returned handle yields the value of \<open>f\<close>. The code,
  for every callable and timeout: as soon as the function has returned the handle, and
  the worker has not finished by then, the destroyed promise has left
  \<^verbatim>\<open>future_error(broken_promise)\<close> in the shared state, which is what \<^verbatim>\<open>get()\<close>
  throws; the worker that finishes afterwards, before the timer, writes through a
  dangling reference and its outcome never reaches the handle.
\<close>

theorem timeout_handle_broken_promise:
  "handle_get (run_race [Function_returns] (ldvc_async_execute_with_timeout timeout f args))
     = Some (Inl (Future_error broken_promise))
   \<and> run_race [Function_returns, Worker_finishes]
       (ldvc_async_execute_with_timeout timeout f args) = Inl Dangling_promise"
  by (simp add: race_defs)

text \<open>Only a worker that finishes before the function itself has returned delivers its
  outcome to the handle.\<close>

lemma timeout_worker_before_return:
  "f args = Inr () \<Longrightarrow>
     handle_get (run_race [Worker_finishes, Function_returns]
       (ldvc_async_execute_with_timeout timeout f args)) = Some (Inr ())"
  by (simp add: race_defs)

end
